theory Spec2Isabelle
  imports Main "HOL-Library.AList"
begin

section \<open>Data model (src/main.go, lines 23-65)\<close>

text \<open>
  The Go struct \<^verbatim>\<open>Session\<close> (lines 37-44). \<^verbatim>\<open>Status\<close> is a Go string, so it is a
  string here too; \<^verbatim>\<open>CreatedAt\<close> is the value \<^verbatim>\<open>time.Now()\<close> returned, taken as a number.
\<close>

record session =
  SessionID :: string
  Caller :: string
  Target :: string
  Status :: string
  Type :: string
  CreatedAt :: nat

text \<open>
  \<^verbatim>\<open>SessionCreateRequest\<close> (lines 32-35). Its second field is called \<^verbatim>\<open>Type\<close> in the
  source; the name is taken by the session record, hence \<open>ReqType\<close>.
\<close>

record SessionCreateRequest =
  TargetUsername :: string
  ReqType :: string

text \<open>
  \<^verbatim>\<open>WebSocketMessage\<close> (lines 46-49), and also the shape of every outbound
  \<^verbatim>\<open>map{"event": ..., "data": ...}\<close> handed to \<^verbatim>\<open>WriteJSON\<close>. \<^verbatim>\<open>Data\<close> is a
  \<^verbatim>\<open>map[string]interface{}\<close> in the struct and in a signal, and a \<^verbatim>\<open>*Session\<close> in a
  \<^verbatim>\<open>session_updated\<close> notification; hence the parameter.
\<close>

record 'd WebSocketMessage =
  Event :: string
  Data :: 'd

text \<open>A \<^verbatim>\<open>*websocket.Conn\<close> is known to the model only by its identity.\<close>

type_synonym conn = nat

text \<open>
  The three global maps guarded by \<^verbatim>\<open>mu\<close> (lines 57-61). Every handler below holds
  the lock for its whole body, so a handler is one atomic function on this record.
\<close>

record state =
  sessions :: "string \<rightharpoonup> session"
  userSessions :: "string \<rightharpoonup> string"
  wsConnections :: "string \<rightharpoonup> conn"

definition init_state :: state where
  "init_state = \<lparr>sessions = Map.empty, userSessions = Map.empty, wsConnections = Map.empty\<rparr>"

text \<open>
  The failures of the locked sections, one constructor per kind of \<^verbatim>\<open>http.Error\<close> call:
  \<^item> \<open>AlreadyInSession\<close>: "Already in active session" (line 169);
  \<^item> \<open>TargetBusy\<close>: "Target user is busy" (line 175);
  \<^item> \<open>SelfTarget\<close>: "Cannot call yourself" (line 180);
  \<^item> \<open>NoSession\<close>: "No active session" / "No pending session" (lines 228, 256, 319, 372);
  \<^item> \<open>SessionNotFound\<close>: "Session not found" (lines 234, 262, 325, 378);
  \<^item> \<open>Forbidden\<close>: "Only target can accept" / "Only target can decline" (lines 267, 330);
  \<^item> \<open>InvalidState\<close>: "Session not pending" (line 272).
\<close>

datatype error =
  AlreadyInSession | TargetBusy | SelfTarget | NoSession | SessionNotFound
  | Forbidden | InvalidState

text \<open>The status constant passed to \<^verbatim>\<open>http.Error\<close> at each of those lines.\<close>

fun http_status :: "error \<Rightarrow> nat" where
  "http_status AlreadyInSession = 400"
| "http_status TargetBusy = 409"
| "http_status SelfTarget = 400"
| "http_status NoSession = 404"
| "http_status SessionNotFound = 404"
| "http_status Forbidden = 403"
| "http_status InvalidState = 400"

text \<open>
  What the client sees: the status of the \<^verbatim>\<open>http.Error\<close> call, or 200 when the handler
  encodes the session with \<^verbatim>\<open>json.NewEncoder(w).Encode(session)\<close>.
\<close>

fun response_status :: "error + session \<Rightarrow> nat" where
  "response_status (Inl e) = http_status e"
| "response_status (Inr s) = 200"

section \<open>Handlers\<close>

text \<open>
  Each handler returns the new state, its HTTP result, and the list of sends it
  dispatched with \<^verbatim>\<open>go func() { conn.WriteJSON(...) }()\<close>: the connection and the message.
  The method check and the JSON decoding that precede the lock are the transport's
  business and are not part of the functions below.
\<close>

type_synonym outbox = "(conn \<times> session WebSocketMessage) list"

text \<open>
  The recurring block
  \<^verbatim>\<open>if conn, ok := wsConnections[user]; ok { go func() { conn.WriteJSON(session_updated) }() }\<close>.
\<close>

definition notify :: "state \<Rightarrow> string \<Rightarrow> session \<Rightarrow> outbox" where
  "notify st user s =
     (case wsConnections st user of
        None \<Rightarrow> []
      | Some c \<Rightarrow> [(c, \<lparr>Event = ''session_updated'', Data = s\<rparr>)])"

text \<open>
  \<^verbatim>\<open>handleCreateSession\<close> (lines 164-211). \<open>uuid\<close> is the string \<^verbatim>\<open>uuid.New().String()\<close>
  produced, \<open>now\<close> the value of \<^verbatim>\<open>time.Now()\<close>.
\<close>

definition handleCreateSession ::
  "state \<Rightarrow> string \<Rightarrow> SessionCreateRequest \<Rightarrow> string \<Rightarrow> nat
     \<Rightarrow> state \<times> (error + session) \<times> outbox" where
  "handleCreateSession st username req uuid now =
     (if userSessions st username \<noteq> None then (st, Inl AlreadyInSession, [])
      else if userSessions st (TargetUsername req) \<noteq> None then (st, Inl TargetBusy, [])
      else if TargetUsername req = username then (st, Inl SelfTarget, [])
      else
        let s = \<lparr>SessionID = uuid, Caller = username, Target = TargetUsername req,
                 Status = ''pending'', Type = ReqType req, CreatedAt = now\<rparr>;
            st' = st\<lparr>sessions := (sessions st)(SessionID s \<mapsto> s),
                     userSessions := (userSessions st)
                        (username \<mapsto> SessionID s, TargetUsername req \<mapsto> SessionID s)\<rparr>
        in (st', Inr s, notify st' (TargetUsername req) s))"

text \<open>\<^verbatim>\<open>handleGetSession\<close> (lines 223-239); it only reads.\<close>

definition handleGetSession :: "state \<Rightarrow> string \<Rightarrow> error + session" where
  "handleGetSession st username =
     (case userSessions st username of
        None \<Rightarrow> Inl NoSession
      | Some sessionID \<Rightarrow>
          (case sessions st sessionID of
             None \<Rightarrow> Inl SessionNotFound
           | Some s \<Rightarrow> Inr s))"

text \<open>
  \<^verbatim>\<open>handleAcceptSession\<close> (lines 251-302). The Go code mutates the session through the
  pointer stored in the map; here the map entry is rewritten.
\<close>

definition handleAcceptSession :: "state \<Rightarrow> string \<Rightarrow> state \<times> (error + session) \<times> outbox" where
  "handleAcceptSession st username =
     (case userSessions st username of
        None \<Rightarrow> (st, Inl NoSession, [])
      | Some sessionID \<Rightarrow>
          (case sessions st sessionID of
             None \<Rightarrow> (st, Inl SessionNotFound, [])
           | Some s0 \<Rightarrow>
               if Target s0 \<noteq> username then (st, Inl Forbidden, [])
               else if Status s0 \<noteq> ''pending'' then (st, Inl InvalidState, [])
               else
                 let s = s0\<lparr>Status := ''active''\<rparr>;
                     st' = st\<lparr>sessions := (sessions st)(sessionID \<mapsto> s)\<rparr>
                 in (st', Inr s, notify st' (Caller s) s @ notify st' (Target s) s)))"

text \<open>\<^verbatim>\<open>handleDeclineSession\<close> (lines 314-355).\<close>

definition handleDeclineSession :: "state \<Rightarrow> string \<Rightarrow> state \<times> (error + session) \<times> outbox" where
  "handleDeclineSession st username =
     (case userSessions st username of
        None \<Rightarrow> (st, Inl NoSession, [])
      | Some sessionID \<Rightarrow>
          (case sessions st sessionID of
             None \<Rightarrow> (st, Inl SessionNotFound, [])
           | Some s0 \<Rightarrow>
               if Target s0 \<noteq> username then (st, Inl Forbidden, [])
               else
                 let s = s0\<lparr>Status := ''declined''\<rparr>;
                     caller = Caller s;
                     out = notify st caller s;
                     st' = st\<lparr>userSessions := (userSessions st)(username := None, caller := None),
                              sessions := (sessions st)(sessionID := None)\<rparr>
                 in (st', Inr s, out)))"

text \<open>\<^verbatim>\<open>handleCancelSession\<close> (lines 367-407).\<close>

definition handleCancelSession :: "state \<Rightarrow> string \<Rightarrow> state \<times> (error + session) \<times> outbox" where
  "handleCancelSession st username =
     (case userSessions st username of
        None \<Rightarrow> (st, Inl NoSession, [])
      | Some sessionID \<Rightarrow>
          (case sessions st sessionID of
             None \<Rightarrow> (st, Inl SessionNotFound, [])
           | Some s0 \<Rightarrow>
               let s = s0\<lparr>Status := ''cancelled''\<rparr>;
                   otherUser = (if Caller s \<noteq> username then Caller s else Target s);
                   out = notify st otherUser s;
                   st' = st\<lparr>userSessions := (userSessions st)(username := None, otherUser := None),
                            sessions := (sessions st)(sessionID := None)\<rparr>
               in (st', Inr s, out)))"

section \<open>JSON messages on a WebSocket\<close>












section \<open>The WebSocket handler (lines 411-516), one function per critical section\<close>

text \<open>Lines 434-436: \<^verbatim>\<open>wsConnections[username] = conn\<close>.\<close>

definition ws_register :: "state \<Rightarrow> string \<Rightarrow> conn \<Rightarrow> state" where
  "ws_register st username c = st\<lparr>wsConnections := (wsConnections st)(username \<mapsto> c)\<rparr>"



text \<open>
  Lines 483-513, run when the receive loop ends. Nothing is returned to anybody: the
  result is the new state and the sends dispatched.
\<close>

definition ws_disconnect :: "state \<Rightarrow> string \<Rightarrow> state \<times> outbox" where
  "ws_disconnect st username =
     (let st1 = st\<lparr>wsConnections := (wsConnections st)(username := None)\<rparr>
      in case userSessions st1 username of
           None \<Rightarrow> (st1, [])
         | Some sessionID \<Rightarrow>
             (case sessions st1 sessionID of
                None \<Rightarrow> (st1, [])
              | Some s0 \<Rightarrow>
                  let s = s0\<lparr>Status := ''disconnected''\<rparr>;
                      otherUser = (if Target s = username then Caller s else Target s);
                      out = notify st1 otherUser s;
                      st' = st1\<lparr>userSessions :=
                                   (userSessions st1)(username := None, otherUser := None),
                                 sessions := (sessions st1)(sessionID := None)\<rparr>
                  in (st', out)))"

section \<open>The server as a transition system\<close>

text \<open>
  One value per atomic state change a client can cause: the four locked REST handlers
  that write, a WebSocket connecting and a WebSocket going away. \<open>Create\<close> carries the
  uuid and the clock value its run obtained.
\<close>

datatype op =
  Create string SessionCreateRequest string nat
  | Accept string
  | Decline string
  | Cancel string
  | Connect string conn
  | Disconnect string

fun apply_op :: "state \<Rightarrow> op \<Rightarrow> state" where
  "apply_op st (Create username req uuid now) = fst (handleCreateSession st username req uuid now)"
| "apply_op st (Accept username) = fst (handleAcceptSession st username)"
| "apply_op st (Decline username) = fst (handleDeclineSession st username)"
| "apply_op st (Cancel username) = fst (handleCancelSession st username)"
| "apply_op st (Connect username c) = ws_register st username c"
| "apply_op st (Disconnect username) = fst (ws_disconnect st username)"

text \<open>
  The only thing assumed of \<^verbatim>\<open>uuid.New()\<close>: the id it returns is not the key of a
  session that is in the store at that moment.
\<close>

fun uuid_fresh :: "state \<Rightarrow> op \<Rightarrow> bool" where
  "uuid_fresh st (Create username req uuid now) = (sessions st uuid = None)"
| "uuid_fresh st _ = True"

inductive reachable :: "state \<Rightarrow> bool" where
  reachable_init: "reachable init_state"
| reachable_step: "reachable st \<Longrightarrow> uuid_fresh st a \<Longrightarrow> reachable (apply_op st a)"

subsection \<open>The invariants of the store and the index\<close>

definition index_resolves :: "state \<Rightarrow> bool" where
  "index_resolves st \<longleftrightarrow>
     (\<forall>u sid. userSessions st u = Some sid \<longrightarrow>
        (\<exists>s. sessions st sid = Some s \<and> (Caller s = u \<or> Target s = u)))"

definition index_single :: "state \<Rightarrow> bool" where
  "index_single st \<longleftrightarrow>
     (\<forall>u sid sid'. userSessions st u = Some sid \<and> userSessions st u = Some sid' \<longrightarrow> sid = sid')"

definition parties_distinct :: "state \<Rightarrow> bool" where
  "parties_distinct st \<longleftrightarrow> (\<forall>sid s. sessions st sid = Some s \<longrightarrow> Caller s \<noteq> Target s)"

definition terminal :: "string \<Rightarrow> bool" where
  "terminal status \<longleftrightarrow> status \<in> {''declined'', ''cancelled'', ''disconnected''}"

definition no_terminal_stored :: "state \<Rightarrow> bool" where
  "no_terminal_stored st \<longleftrightarrow> (\<forall>sid s. sessions st sid = Some s \<longrightarrow> \<not> terminal (Status s))"

text \<open>
  The other direction of the lockstep between store and index, which the handlers keep
  as well: both parties of a stored session are indexed to it.
\<close>

definition parties_indexed :: "state \<Rightarrow> bool" where
  "parties_indexed st \<longleftrightarrow>
     (\<forall>sid s. sessions st sid = Some s \<longrightarrow>
        userSessions st (Caller s) = Some sid \<and> userSessions st (Target s) = Some sid)"

definition invariant :: "state \<Rightarrow> bool" where
  "invariant st \<longleftrightarrow>
     index_resolves st \<and> index_single st \<and> parties_distinct st
     \<and> no_terminal_stored st \<and> parties_indexed st"

subsection \<open>A payload after decoding\<close>




subsection \<open>Some concrete states\<close>

definition s_pending :: session where
  "s_pending = \<lparr>SessionID = ''id1'', Caller = ''alice'', Target = ''bob'',
                 Status = ''pending'', Type = ''video'', CreatedAt = 7\<rparr>"

text \<open>Alice and Bob are connected and Alice has called Bob.\<close>

definition st_pending :: state where
  "st_pending =
     apply_op (apply_op (apply_op init_state (Connect ''alice'' 1)) (Connect ''bob'' 2))
       (Create ''alice'' \<lparr>TargetUsername = ''bob'', ReqType = ''video''\<rparr> ''id1'' 7)"

text \<open>Bob has accepted.\<close>

definition st_active :: state where
  "st_active = apply_op st_pending (Accept ''bob'')"

text \<open>An index entry whose session is not in the store; no run of the server gets here.\<close>

definition st_stale :: state where
  "st_stale = \<lparr>sessions = Map.empty, userSessions = [''bob'' \<mapsto> ''id9''],
                wsConnections = [''bob'' \<mapsto> 2]\<rparr>"




section \<open>The invariants hold in every reachable state\<close>

lemmas inv_defs = invariant_def index_resolves_def index_single_def parties_distinct_def
      no_terminal_stored_def parties_indexed_def

lemma inv_init: "invariant init_state"
  by (simp add: inv_defs init_state_def)

lemma inv_insert:
  assumes inv: "invariant st" and fresh: "sessions st uuid = None"
    and a: "userSessions st a = None" and b: "userSessions st b = None" and ab: "a \<noteq> b"
    and s: "Caller s = a" "Target s = b" "\<not> terminal (Status s)"
  shows "invariant (st\<lparr>sessions := (sessions st)(uuid \<mapsto> s),
                        userSessions := (userSessions st)(a \<mapsto> uuid, b \<mapsto> uuid)\<rparr>)"
proof -
  from inv have ir: "\<And>u sid. userSessions st u = Some sid \<Longrightarrow>
        \<exists>s. sessions st sid = Some s \<and> (Caller s = u \<or> Target s = u)"
    and pd: "\<And>sid s. sessions st sid = Some s \<Longrightarrow> Caller s \<noteq> Target s"
    and nt: "\<And>sid s. sessions st sid = Some s \<Longrightarrow> \<not> terminal (Status s)"
    and pi: "\<And>sid s. sessions st sid = Some s \<Longrightarrow>
        userSessions st (Caller s) = Some sid \<and> userSessions st (Target s) = Some sid"
    unfolding inv_defs by blast+
  have not_uuid: "\<And>u sid. userSessions st u = Some sid \<Longrightarrow> sid \<noteq> uuid"
    using ir fresh by fastforce
  have not_ab: "\<And>sid s'. sessions st sid = Some s' \<Longrightarrow>
       Caller s' \<noteq> a \<and> Caller s' \<noteq> b \<and> Target s' \<noteq> a \<and> Target s' \<noteq> b"
    using pi a b by fastforce
  show ?thesis
    unfolding inv_defs
  proof (intro conjI)
    show "\<forall>u sid. userSessions (st\<lparr>sessions := (sessions st)(uuid \<mapsto> s),
                        userSessions := (userSessions st)(a \<mapsto> uuid, b \<mapsto> uuid)\<rparr>) u = Some sid \<longrightarrow>
        (\<exists>s'. sessions (st\<lparr>sessions := (sessions st)(uuid \<mapsto> s),
                        userSessions := (userSessions st)(a \<mapsto> uuid, b \<mapsto> uuid)\<rparr>) sid = Some s' \<and> (Caller s' = u \<or> Target s' = u))"
      using ir not_uuid s by (auto split: if_splits)
  next
    show "\<forall>sid s'. sessions (st\<lparr>sessions := (sessions st)(uuid \<mapsto> s),
                        userSessions := (userSessions st)(a \<mapsto> uuid, b \<mapsto> uuid)\<rparr>) sid = Some s' \<longrightarrow>
        userSessions (st\<lparr>sessions := (sessions st)(uuid \<mapsto> s),
                        userSessions := (userSessions st)(a \<mapsto> uuid, b \<mapsto> uuid)\<rparr>) (Caller s') = Some sid \<and> userSessions (st\<lparr>sessions := (sessions st)(uuid \<mapsto> s),
                        userSessions := (userSessions st)(a \<mapsto> uuid, b \<mapsto> uuid)\<rparr>) (Target s') = Some sid"
      using pi not_ab s by (auto split: if_splits)
  qed (use pd nt s ab in \<open>auto split: if_splits\<close>)
qed

lemma inv_remove:
  assumes inv: "invariant st" and u: "userSessions st u = Some sid"
    and s: "sessions st sid = Some s" and uv: "{u, v} = {Caller s, Target s}"
  shows "invariant (st\<lparr>userSessions := (userSessions st)(u := None, v := None),
                        sessions := (sessions st)(sid := None)\<rparr>)"
proof -
  from inv have ir: "\<And>u sid. userSessions st u = Some sid \<Longrightarrow>
        \<exists>s. sessions st sid = Some s \<and> (Caller s = u \<or> Target s = u)"
    and pd: "\<And>sid s. sessions st sid = Some s \<Longrightarrow> Caller s \<noteq> Target s"
    and nt: "\<And>sid s. sessions st sid = Some s \<Longrightarrow> \<not> terminal (Status s)"
    and pi: "\<And>sid s. sessions st sid = Some s \<Longrightarrow>
        userSessions st (Caller s) = Some sid \<and> userSessions st (Target s) = Some sid"
    unfolding inv_defs by blast+
  have gone: "\<And>w. userSessions st w = Some sid \<Longrightarrow> w = u \<or> w = v"
    using ir s uv by fastforce
  have others: "\<And>sid' s'. sessions st sid' = Some s' \<Longrightarrow> sid' \<noteq> sid \<Longrightarrow>
       Caller s' \<noteq> u \<and> Caller s' \<noteq> v \<and> Target s' \<noteq> u \<and> Target s' \<noteq> v"
  proof -
    fix sid' s' assume a: "sessions st sid' = Some s'" "sid' \<noteq> sid"
    have "userSessions st u = Some sid" "userSessions st v = Some sid"
      using pi[OF s] uv u by (auto simp: doubleton_eq_iff)
    with pi[OF a(1)] a(2) show "Caller s' \<noteq> u \<and> Caller s' \<noteq> v \<and> Target s' \<noteq> u \<and> Target s' \<noteq> v"
      by auto
  qed
  show ?thesis
    unfolding inv_defs
  proof (intro conjI)
    show "\<forall>w sid'. userSessions (st\<lparr>userSessions := (userSessions st)(u := None, v := None),
                        sessions := (sessions st)(sid := None)\<rparr>) w = Some sid' \<longrightarrow>
        (\<exists>s'. sessions (st\<lparr>userSessions := (userSessions st)(u := None, v := None),
                        sessions := (sessions st)(sid := None)\<rparr>) sid' = Some s' \<and> (Caller s' = w \<or> Target s' = w))"
      using ir gone by (auto split: if_splits)
  next
    show "\<forall>sid' s'. sessions (st\<lparr>userSessions := (userSessions st)(u := None, v := None),
                        sessions := (sessions st)(sid := None)\<rparr>) sid' = Some s' \<longrightarrow>
        userSessions (st\<lparr>userSessions := (userSessions st)(u := None, v := None),
                        sessions := (sessions st)(sid := None)\<rparr>) (Caller s') = Some sid' \<and> userSessions (st\<lparr>userSessions := (userSessions st)(u := None, v := None),
                        sessions := (sessions st)(sid := None)\<rparr>) (Target s') = Some sid'"
      using pi others by (auto split: if_splits)
  qed (use pd nt in \<open>auto split: if_splits\<close>)
qed


lemma inv_ws_irrelevant: "invariant (st\<lparr>wsConnections := m\<rparr>) = invariant st"
  by (simp add: inv_defs)

lemma inv_set_active:
  assumes inv: "invariant st" and s0: "sessions st sid = Some s0"
  shows "invariant (st\<lparr>sessions := (sessions st)(sid \<mapsto> s0\<lparr>Status := ''active''\<rparr>)\<rparr>)"
proof -
  from inv have ir: "\<And>u sid. userSessions st u = Some sid \<Longrightarrow>
        \<exists>s. sessions st sid = Some s \<and> (Caller s = u \<or> Target s = u)"
    and pd: "\<And>sid s. sessions st sid = Some s \<Longrightarrow> Caller s \<noteq> Target s"
    and nt: "\<And>sid s. sessions st sid = Some s \<Longrightarrow> \<not> terminal (Status s)"
    and pi: "\<And>sid s. sessions st sid = Some s \<Longrightarrow>
        userSessions st (Caller s) = Some sid \<and> userSessions st (Target s) = Some sid"
    unfolding inv_defs by blast+
  show ?thesis
    unfolding inv_defs
  proof (intro conjI)
    show "\<forall>u sid'. userSessions (st\<lparr>sessions := (sessions st)(sid \<mapsto> s0\<lparr>Status := ''active''\<rparr>)\<rparr>) u = Some sid' \<longrightarrow>
        (\<exists>s. sessions (st\<lparr>sessions := (sessions st)(sid \<mapsto> s0\<lparr>Status := ''active''\<rparr>)\<rparr>) sid' = Some s \<and> (Caller s = u \<or> Target s = u))"
    proof (intro allI impI)
      fix u sid'
      assume "userSessions (st\<lparr>sessions := (sessions st)(sid \<mapsto> s0\<lparr>Status := ''active''\<rparr>)\<rparr>) u = Some sid'"
      then have "userSessions st u = Some sid'" by simp
      from ir[OF this] obtain s where "sessions st sid' = Some s" "Caller s = u \<or> Target s = u"
        by blast
      then show "\<exists>s. sessions (st\<lparr>sessions := (sessions st)(sid \<mapsto> s0\<lparr>Status := ''active''\<rparr>)\<rparr>) sid' = Some s \<and> (Caller s = u \<or> Target s = u)"
        using s0 by (cases "sid' = sid") auto
    qed
  qed (use pd nt pi s0 in \<open>auto simp: terminal_def split: if_splits\<close>)
qed

lemma inv_party:
  assumes "invariant st" and "userSessions st u = Some sid" and "sessions st sid = Some s"
  shows "(Caller s = u \<or> Target s = u) \<and> Caller s \<noteq> Target s"
  using assms unfolding inv_defs by fastforce

lemma inv_indexed:
  assumes "invariant st" and "sessions st sid = Some s"
  shows "userSessions st (Caller s) = Some sid" and "userSessions st (Target s) = Some sid"
  using assms unfolding invariant_def parties_indexed_def by blast+

lemma inv_create:
  assumes "invariant st" and "sessions st uuid = None"
  shows "invariant (fst (handleCreateSession st u req uuid now))"
  using assms
  by (auto simp: handleCreateSession_def Let_def terminal_def intro!: inv_insert)

lemma inv_accept:
  assumes "invariant st"
  shows "invariant (fst (handleAcceptSession st u))"
  using assms
  by (auto simp: handleAcceptSession_def Let_def split: option.splits intro!: inv_set_active)

lemma inv_decline:
  assumes "invariant st"
  shows "invariant (fst (handleDeclineSession st u))"
  using assms
  by (auto simp: handleDeclineSession_def Let_def split: option.splits intro!: inv_remove)

lemma inv_cancel:
  assumes "invariant st"
  shows "invariant (fst (handleCancelSession st u))"
proof (cases "userSessions st u")
  case None
  then show ?thesis using assms by (simp add: handleCancelSession_def)
next
  case (Some sid)
  show ?thesis
  proof (cases "sessions st sid")
    case None
    then show ?thesis using assms Some by (simp add: handleCancelSession_def)
  next
    case (Some s)
    note p = inv_party[OF assms \<open>userSessions st u = Some sid\<close> Some]
    have "{u, if Caller s \<noteq> u then Caller s else Target s} = {Caller s, Target s}"
      using p by auto
    from inv_remove[OF assms \<open>userSessions st u = Some sid\<close> Some this]
    show ?thesis
      using Some \<open>userSessions st u = Some sid\<close>
      by (cases "Caller s = u") (simp_all add: handleCancelSession_def Let_def)
  qed
qed

lemma inv_register:
  assumes "invariant st"
  shows "invariant (ws_register st u c)"
  using assms by (simp add: ws_register_def inv_ws_irrelevant)

lemma inv_disconnect:
  assumes "invariant st"
  shows "invariant (fst (ws_disconnect st u))"
proof -
  let ?st1 = "st\<lparr>wsConnections := (wsConnections st)(u := None)\<rparr>"
  have inv1: "invariant ?st1" using assms by (simp add: inv_ws_irrelevant)
  show ?thesis
  proof (cases "userSessions st u")
    case None
    then show ?thesis using inv1 by (simp add: ws_disconnect_def)
  next
    case (Some sid)
    show ?thesis
    proof (cases "sessions st sid")
      case None
      then show ?thesis using inv1 Some by (simp add: ws_disconnect_def)
    next
      case (Some s)
      have u1: "userSessions ?st1 u = Some sid" using \<open>userSessions st u = Some sid\<close> by simp
      have s1: "sessions ?st1 sid = Some s" using Some by simp
      note p = inv_party[OF assms \<open>userSessions st u = Some sid\<close> Some]
      have "{u, if Target s = u then Caller s else Target s} = {Caller s, Target s}"
        using p by auto
      from inv_remove[OF inv1 u1 s1 this]
      show ?thesis
        using Some \<open>userSessions st u = Some sid\<close>
        by (cases "Target s = u") (simp_all add: ws_disconnect_def Let_def)
    qed
  qed
qed

lemma inv_apply_op:
  assumes "invariant st" and "uuid_fresh st a"
  shows "invariant (apply_op st a)"
  using assms
  by (cases a) (simp_all add: inv_create inv_accept inv_decline inv_cancel inv_register inv_disconnect)

lemma reachable_invariant: "reachable st \<Longrightarrow> invariant st"
  by (induction rule: reachable.induct) (simp_all add: inv_init inv_apply_op)

subsection \<open>The concrete states, evaluated\<close>

lemma st_pending_maps:
  "sessions st_pending = [''id1'' \<mapsto> s_pending]"
  "userSessions st_pending = [''alice'' \<mapsto> ''id1'', ''bob'' \<mapsto> ''id1'']"
  "wsConnections st_pending = [''alice'' \<mapsto> 1, ''bob'' \<mapsto> 2]"
  by (simp_all add: st_pending_def s_pending_def init_state_def ws_register_def
      handleCreateSession_def Let_def)

lemma st_active_maps:
  "sessions st_active = [''id1'' \<mapsto> s_pending\<lparr>Status := ''active''\<rparr>]"
  "userSessions st_active = [''alice'' \<mapsto> ''id1'', ''bob'' \<mapsto> ''id1'']"
  "wsConnections st_active = [''alice'' \<mapsto> 1, ''bob'' \<mapsto> 2]"
  by (simp_all add: st_active_def st_pending_maps handleAcceptSession_def Let_def s_pending_def)

lemma reachable_st_pending: "reachable st_pending"
  unfolding st_pending_def
  by (intro reachable_step reachable_init) (simp_all add: init_state_def ws_register_def)

lemma reachable_st_active: "reachable st_active"
  unfolding st_active_def
  by (intro reachable_step reachable_st_pending) simp

subsection \<open>What the terminal handlers do in a state that satisfies the invariants\<close>

lemma party_cases:
  assumes "invariant st" and "userSessions st u = Some sid" and "sessions st sid = Some s"
  obtains "u = Caller s" "u \<noteq> Target s" | "u = Target s" "u \<noteq> Caller s"
  using inv_party[OF assms] by auto

lemma cancel_effect:
  assumes inv: "invariant st" and u: "userSessions st u = Some sid"
    and s: "sessions st sid = Some s"
  shows "handleCancelSession st u =
           (st\<lparr>userSessions := (userSessions st)(Caller s := None, Target s := None),
               sessions := (sessions st)(sid := None)\<rparr>,
            Inr (s\<lparr>Status := ''cancelled''\<rparr>),
            notify st (if u = Caller s then Target s else Caller s)
              (s\<lparr>Status := ''cancelled''\<rparr>))"
proof (rule party_cases[OF inv u s])
  assume "u = Caller s" "u \<noteq> Target s"
  then show ?thesis using u s
    by (simp add: handleCancelSession_def Let_def)
next
  assume "u = Target s" "u \<noteq> Caller s"
  then show ?thesis using u s
    by (simp add: handleCancelSession_def Let_def fun_upd_twist)
qed

lemma decline_effect:
  assumes u: "userSessions st u = Some sid" and s: "sessions st sid = Some s"
    and t: "u = Target s"
  shows "handleDeclineSession st u =
           (st\<lparr>userSessions := (userSessions st)(Target s := None, Caller s := None),
               sessions := (sessions st)(sid := None)\<rparr>,
            Inr (s\<lparr>Status := ''declined''\<rparr>),
            notify st (Caller s) (s\<lparr>Status := ''declined''\<rparr>))"
  using u s unfolding t by (simp add: handleDeclineSession_def Let_def)

lemma disconnect_effect:
  assumes inv: "invariant st" and u: "userSessions st u = Some sid"
    and s: "sessions st sid = Some s"
  shows "ws_disconnect st u =
           (st\<lparr>wsConnections := (wsConnections st)(u := None),
               userSessions := (userSessions st)(Caller s := None, Target s := None),
               sessions := (sessions st)(sid := None)\<rparr>,
            notify (st\<lparr>wsConnections := (wsConnections st)(u := None)\<rparr>)
              (if u = Caller s then Target s else Caller s)
              (s\<lparr>Status := ''disconnected''\<rparr>))"
proof (rule party_cases[OF inv u s])
  assume "u = Caller s" "u \<noteq> Target s"
  then show ?thesis using u s
    by (simp add: ws_disconnect_def Let_def)
next
  assume "u = Target s" "u \<noteq> Caller s"
  then show ?thesis using u s
    by (simp add: ws_disconnect_def Let_def fun_upd_twist)
qed

lemma terminal_step_removes:
  assumes inv: "invariant st" and u: "userSessions st u = Some sid"
    and s: "sessions st sid = Some s"
    and a: "a = Cancel u \<or> a = Disconnect u \<or> (a = Decline u \<and> Target s = u)"
  shows "sessions (apply_op st a) sid = None
       \<and> userSessions (apply_op st a) (Caller s) = None
       \<and> userSessions (apply_op st a) (Target s) = None"
  using a
proof (elim disjE conjE)
  assume "a = Cancel u"
  then show ?thesis by (simp add: cancel_effect[OF inv u s])
next
  assume "a = Disconnect u"
  then show ?thesis by (simp add: disconnect_effect[OF inv u s])
next
  assume "a = Decline u" and "Target s = u"
  then show ?thesis using decline_effect[OF u s] by simp
qed

section \<open>Invariants of the session store\<close>

text \<open>
  C1. In every state the server can reach by Create, Accept, Decline, Cancel, Connect
  and Disconnect (with session ids that are new when they are generated): every index
  entry resolves to a stored session that has that identity as caller or target; no
  identity is indexed to two ids; caller and target of a stored session differ; no
  stored session has a terminal status. Moreover a terminal transition (Cancel or
  Disconnect by a party, Decline by the target) leaves, in the state right after it,
  neither the session in the store nor either party in the index.
\<close>

theorem store_index_invariants:
  assumes "reachable st"
  shows "index_resolves st \<and> index_single st \<and> parties_distinct st \<and> no_terminal_stored st
       \<and> (\<forall>u sid s a.
            userSessions st u = Some sid \<and> sessions st sid = Some s
            \<and> (a = Cancel u \<or> a = Disconnect u \<or> (a = Decline u \<and> Target s = u))
            \<longrightarrow> sessions (apply_op st a) sid = None
               \<and> userSessions (apply_op st a) (Caller s) = None
               \<and> userSessions (apply_op st a) (Target s) = None)"
proof -
  have inv: "invariant st" using assms by (rule reachable_invariant)
  then have "index_resolves st" "index_single st" "parties_distinct st" "no_terminal_stored st"
    by (simp_all add: invariant_def)
  moreover have "\<forall>u sid s a.
            userSessions st u = Some sid \<and> sessions st sid = Some s
            \<and> (a = Cancel u \<or> a = Disconnect u \<or> (a = Decline u \<and> Target s = u))
            \<longrightarrow> sessions (apply_op st a) sid = None
               \<and> userSessions (apply_op st a) (Caller s) = None
               \<and> userSessions (apply_op st a) (Target s) = None"
  proof (intro allI impI, elim conjE)
    fix u sid s a
    assume "userSessions st u = Some sid" "sessions st sid = Some s"
      "a = Cancel u \<or> a = Disconnect u \<or> (a = Decline u \<and> Target s = u)"
    then show "sessions (apply_op st a) sid = None
               \<and> userSessions (apply_op st a) (Caller s) = None
               \<and> userSessions (apply_op st a) (Target s) = None"
      by (rule terminal_step_removes[OF inv])
  qed
  ultimately show ?thesis by (intro conjI)
qed

theorem store_index_invariants_witness:
  "reachable st_active
   \<and> index_resolves st_active \<and> index_single st_active \<and> parties_distinct st_active
   \<and> no_terminal_stored st_active
   \<and> userSessions st_active ''alice'' = Some ''id1''
   \<and> sessions st_active ''id1'' = Some (s_pending\<lparr>Status := ''active''\<rparr>)
   \<and> sessions (apply_op st_active (Cancel ''alice'')) ''id1'' = None
   \<and> userSessions (apply_op st_active (Cancel ''alice'')) ''alice'' = None
   \<and> userSessions (apply_op st_active (Cancel ''alice'')) ''bob'' = None"
proof -
  note T = store_index_invariants [OF reachable_st_active]
  note rem = T [THEN conjunct2, THEN conjunct2, THEN conjunct2, THEN conjunct2, rule_format,
      of "''alice''" "''id1''" "s_pending\<lparr>Status := ''active''\<rparr>" "Cancel ''alice''"]
  have u: "userSessions st_active ''alice'' = Some ''id1''"
    and s: "sessions st_active ''id1'' = Some (s_pending\<lparr>Status := ''active''\<rparr>)"
    by (simp_all add: st_active_maps)
  have "sessions (apply_op st_active (Cancel ''alice'')) ''id1'' = None
      \<and> userSessions (apply_op st_active (Cancel ''alice''))
            (Caller (s_pending\<lparr>Status := ''active''\<rparr>)) = None
      \<and> userSessions (apply_op st_active (Cancel ''alice''))
            (Target (s_pending\<lparr>Status := ''active''\<rparr>)) = None"
    by (rule rem) (simp add: u s)
  then have r: "sessions (apply_op st_active (Cancel ''alice'')) ''id1'' = None"
      "userSessions (apply_op st_active (Cancel ''alice'')) ''alice'' = None"
      "userSessions (apply_op st_active (Cancel ''alice'')) ''bob'' = None"
    by (simp_all add: s_pending_def)
  show ?thesis
    using reachable_st_active T [THEN conjunct1] T [THEN conjunct2, THEN conjunct1]
      T [THEN conjunct2, THEN conjunct2, THEN conjunct1]
      T [THEN conjunct2, THEN conjunct2, THEN conjunct2, THEN conjunct1] u s r
    by (intro conjI)
qed

section \<open>Creating a session\<close>

text \<open>
  C2. When caller and target differ and neither has an index entry, creating a session
  succeeds: the new session is pending with that caller and target, it is stored under
  its id, both identities are indexed to that id, the session is returned, and a
  following Get by either party returns that same pending session.
\<close>

theorem create_success:
  assumes "A \<noteq> B" and "userSessions st A = None" and "userSessions st B = None"
  shows "\<exists>s st' out.
           handleCreateSession st A \<lparr>TargetUsername = B, ReqType = kind\<rparr> uuid now
             = (st', Inr s, out)
         \<and> Status s = ''pending'' \<and> Caller s = A \<and> Target s = B \<and> SessionID s = uuid
         \<and> sessions st' (SessionID s) = Some s
         \<and> userSessions st' A = Some (SessionID s)
         \<and> userSessions st' B = Some (SessionID s)
         \<and> handleGetSession st' A = Inr s
         \<and> handleGetSession st' B = Inr s"
  using assms by (simp add: handleCreateSession_def handleGetSession_def Let_def)

theorem create_success_witness:
  "''alice'' \<noteq> ''bob'' \<and> userSessions init_state ''alice'' = None
   \<and> userSessions init_state ''bob'' = None
   \<and> (\<exists>s st' out.
        handleCreateSession init_state ''alice''
            \<lparr>TargetUsername = ''bob'', ReqType = ''video''\<rparr> ''id1'' 7
          = (st', Inr s, out)
      \<and> Status s = ''pending'' \<and> Caller s = ''alice'' \<and> Target s = ''bob''
      \<and> SessionID s = ''id1''
      \<and> sessions st' (SessionID s) = Some s
      \<and> userSessions st' ''alice'' = Some (SessionID s)
      \<and> userSessions st' ''bob'' = Some (SessionID s)
      \<and> handleGetSession st' ''alice'' = Inr s
      \<and> handleGetSession st' ''bob'' = Inr s)"
proof -
  have h1: "''alice'' \<noteq> ''bob''" by simp
  have h2: "userSessions init_state ''alice'' = None" by (simp add: init_state_def)
  have h3: "userSessions init_state ''bob'' = None" by (simp add: init_state_def)
  show ?thesis
    using h1 h2 h3 create_success [OF h1 h2 h3, of "''video''" "''id1''" 7] by blast
qed

text \<open>
  C8. Creating a session fails with AlreadyInSession when the initiator has an index
  entry, with TargetBusy when the initiator has none and the target has one, and with
  SelfTarget when neither has one and the target is the initiator. Each failure returns
  the state it was given (store, index and registry) and dispatches nothing.
\<close>

theorem create_failures:
  "(userSessions st u \<noteq> None \<longrightarrow>
      handleCreateSession st u req uuid now = (st, Inl AlreadyInSession, []))
   \<and> (userSessions st u = None \<and> userSessions st (TargetUsername req) \<noteq> None \<longrightarrow>
      handleCreateSession st u req uuid now = (st, Inl TargetBusy, []))
   \<and> (userSessions st u = None \<and> userSessions st (TargetUsername req) = None
        \<and> TargetUsername req = u \<longrightarrow>
      handleCreateSession st u req uuid now = (st, Inl SelfTarget, []))"
  by (simp add: handleCreateSession_def)

theorem create_failures_witness:
  "userSessions st_pending ''alice'' \<noteq> None
   \<and> handleCreateSession st_pending ''alice''
        \<lparr>TargetUsername = ''carol'', ReqType = ''video''\<rparr> ''id2'' 8
      = (st_pending, Inl AlreadyInSession, [])
   \<and> userSessions st_pending ''carol'' = None
   \<and> userSessions st_pending ''bob'' \<noteq> None
   \<and> handleCreateSession st_pending ''carol''
        \<lparr>TargetUsername = ''bob'', ReqType = ''video''\<rparr> ''id2'' 8
      = (st_pending, Inl TargetBusy, [])
   \<and> userSessions init_state ''alice'' = None
   \<and> handleCreateSession init_state ''alice''
        \<lparr>TargetUsername = ''alice'', ReqType = ''video''\<rparr> ''id2'' 8
      = (init_state, Inl SelfTarget, [])"
proof -
  have a: "userSessions st_pending ''alice'' \<noteq> None"
    and b: "userSessions st_pending ''bob'' \<noteq> None"
    and c: "userSessions st_pending ''carol'' = None"
    and i: "userSessions init_state ''alice'' = None"
    by (simp_all add: st_pending_maps init_state_def)
  have 1: "handleCreateSession st_pending ''alice''
        \<lparr>TargetUsername = ''carol'', ReqType = ''video''\<rparr> ''id2'' 8
      = (st_pending, Inl AlreadyInSession, [])"
    by (rule create_failures [THEN conjunct1, rule_format]) (rule a)
  have 2: "handleCreateSession st_pending ''carol''
        \<lparr>TargetUsername = ''bob'', ReqType = ''video''\<rparr> ''id2'' 8
      = (st_pending, Inl TargetBusy, [])"
    by (rule create_failures [THEN conjunct2, THEN conjunct1, rule_format]) (simp add: b c)
  have 3: "handleCreateSession init_state ''alice''
        \<lparr>TargetUsername = ''alice'', ReqType = ''video''\<rparr> ''id2'' 8
      = (init_state, Inl SelfTarget, [])"
    by (rule create_failures [THEN conjunct2, THEN conjunct2, rule_format]) (simp add: i)
  show ?thesis using a 1 c b 2 i 3 by (intro conjI)
qed

text \<open>
  C10. Creating a session checks nothing about the target or the kind beyond the three
  tests above: for any initiator without an index entry, any other string without an
  index entry as target (the empty string too) and any kind, it succeeds; the new
  session holds that target and kind as given, and the target string is indexed to it.
\<close>

theorem create_no_validation:
  assumes "userSessions st u = None" and "userSessions st t = None" and "t \<noteq> u"
  shows "handleCreateSession st u \<lparr>TargetUsername = t, ReqType = k\<rparr> uuid now =
           (st\<lparr>sessions := (sessions st)
                  (uuid \<mapsto> \<lparr>SessionID = uuid, Caller = u, Target = t, Status = ''pending'',
                             Type = k, CreatedAt = now\<rparr>),
               userSessions := (userSessions st)(u \<mapsto> uuid, t \<mapsto> uuid)\<rparr>,
            Inr \<lparr>SessionID = uuid, Caller = u, Target = t, Status = ''pending'',
                 Type = k, CreatedAt = now\<rparr>,
            notify st t \<lparr>SessionID = uuid, Caller = u, Target = t, Status = ''pending'',
                 Type = k, CreatedAt = now\<rparr>)"
  using assms by (simp add: handleCreateSession_def Let_def notify_def)

theorem create_no_validation_witness:
  "userSessions init_state ''alice'' = None \<and> userSessions init_state '''' = None
   \<and> '''' \<noteq> ''alice''
   \<and> handleCreateSession init_state ''alice'' \<lparr>TargetUsername = '''', ReqType = ''''\<rparr> ''id1'' 7 =
           (init_state\<lparr>sessions := (sessions init_state)
                  (''id1'' \<mapsto> \<lparr>SessionID = ''id1'', Caller = ''alice'', Target = '''',
                     Status = ''pending'', Type = '''', CreatedAt = 7\<rparr>),
               userSessions := (userSessions init_state)(''alice'' \<mapsto> ''id1'', '''' \<mapsto> ''id1'')\<rparr>,
            Inr \<lparr>SessionID = ''id1'', Caller = ''alice'', Target = '''', Status = ''pending'',
                 Type = '''', CreatedAt = 7\<rparr>,
            notify init_state '''' \<lparr>SessionID = ''id1'', Caller = ''alice'', Target = '''',
                 Status = ''pending'', Type = '''', CreatedAt = 7\<rparr>)"
proof -
  have a: "userSessions init_state ''alice'' = None"
    and e: "userSessions init_state '''' = None"
    by (simp_all add: init_state_def)
  have d: "'''' \<noteq> ''alice''" by simp
  show ?thesis using a e d create_no_validation [OF a e d, of "''''" "''id1''" 7]
    by (intro conjI)
qed

section \<open>Accepting and declining\<close>

text \<open>
  C3. Accept by an actor fails with NoSession when the actor has no index entry, with
  SessionNotFound when the indexed id is not in the store, with Forbidden when the
  actor is not the target of the session, and with InvalidState when the actor is the
  target and the status is not pending; every failure returns the state unchanged.
  Otherwise the status becomes active and the session is returned; the store differs
  only in that entry, the index and the registry are unchanged, a following Get returns
  the active session, and (in a reachable state) both parties are still indexed to it.
\<close>

theorem accept_spec:
  "(userSessions st u = None \<longrightarrow> handleAcceptSession st u = (st, Inl NoSession, []))
   \<and> (\<forall>sid. userSessions st u = Some sid \<and> sessions st sid = None \<longrightarrow>
         handleAcceptSession st u = (st, Inl SessionNotFound, []))
   \<and> (\<forall>sid s. userSessions st u = Some sid \<and> sessions st sid = Some s \<and> Target s \<noteq> u \<longrightarrow>
         handleAcceptSession st u = (st, Inl Forbidden, []))
   \<and> (\<forall>sid s. userSessions st u = Some sid \<and> sessions st sid = Some s \<and> Target s = u
         \<and> Status s \<noteq> ''pending'' \<longrightarrow>
         handleAcceptSession st u = (st, Inl InvalidState, []))
   \<and> (\<forall>sid s. userSessions st u = Some sid \<and> sessions st sid = Some s \<and> Target s = u
         \<and> Status s = ''pending'' \<longrightarrow>
         (\<exists>st' out. handleAcceptSession st u = (st', Inr (s\<lparr>Status := ''active''\<rparr>), out)
            \<and> sessions st' = (sessions st)(sid \<mapsto> s\<lparr>Status := ''active''\<rparr>)
            \<and> userSessions st' = userSessions st
            \<and> wsConnections st' = wsConnections st
            \<and> handleGetSession st' u = Inr (s\<lparr>Status := ''active''\<rparr>)
            \<and> (reachable st \<longrightarrow>
                  userSessions st' (Caller s) = Some sid
                  \<and> userSessions st' (Target s) = Some sid)))"
proof (intro conjI allI impI; (elim conjE)?)
  fix sid s
  assume u: "userSessions st u = Some sid" and s: "sessions st sid = Some s"
    and t: "Target s = u" and p: "Status s = ''pending''"
  have "reachable st \<longrightarrow>
          userSessions st (Caller s) = Some sid \<and> userSessions st (Target s) = Some sid"
    using inv_indexed[OF reachable_invariant s] by blast
  then show "\<exists>st' out. handleAcceptSession st u = (st', Inr (s\<lparr>Status := ''active''\<rparr>), out)
            \<and> sessions st' = (sessions st)(sid \<mapsto> s\<lparr>Status := ''active''\<rparr>)
            \<and> userSessions st' = userSessions st
            \<and> wsConnections st' = wsConnections st
            \<and> handleGetSession st' u = Inr (s\<lparr>Status := ''active''\<rparr>)
            \<and> (reachable st \<longrightarrow>
                  userSessions st' (Caller s) = Some sid
                  \<and> userSessions st' (Target s) = Some sid)"
    using u s t p by (simp add: handleAcceptSession_def handleGetSession_def Let_def)
qed (simp_all add: handleAcceptSession_def)

theorem accept_spec_witness:
  "userSessions init_state ''bob'' = None
   \<and> handleAcceptSession init_state ''bob'' = (init_state, Inl NoSession, [])
   \<and> userSessions st_stale ''bob'' = Some ''id9'' \<and> sessions st_stale ''id9'' = None
   \<and> handleAcceptSession st_stale ''bob'' = (st_stale, Inl SessionNotFound, [])
   \<and> userSessions st_pending ''alice'' = Some ''id1''
   \<and> sessions st_pending ''id1'' = Some s_pending \<and> Target s_pending \<noteq> ''alice''
   \<and> handleAcceptSession st_pending ''alice'' = (st_pending, Inl Forbidden, [])
   \<and> userSessions st_active ''bob'' = Some ''id1''
   \<and> sessions st_active ''id1'' = Some (s_pending\<lparr>Status := ''active''\<rparr>)
   \<and> Target (s_pending\<lparr>Status := ''active''\<rparr>) = ''bob''
   \<and> Status (s_pending\<lparr>Status := ''active''\<rparr>) \<noteq> ''pending''
   \<and> handleAcceptSession st_active ''bob'' = (st_active, Inl InvalidState, [])
   \<and> userSessions st_pending ''bob'' = Some ''id1''
   \<and> Target s_pending = ''bob'' \<and> Status s_pending = ''pending''
   \<and> reachable st_pending
   \<and> (\<exists>st' out.
         handleAcceptSession st_pending ''bob'' = (st', Inr (s_pending\<lparr>Status := ''active''\<rparr>), out)
         \<and> sessions st' = (sessions st_pending)(''id1'' \<mapsto> s_pending\<lparr>Status := ''active''\<rparr>)
         \<and> userSessions st' = userSessions st_pending
         \<and> wsConnections st' = wsConnections st_pending
         \<and> handleGetSession st' ''bob'' = Inr (s_pending\<lparr>Status := ''active''\<rparr>)
         \<and> userSessions st' (Caller s_pending) = Some ''id1''
         \<and> userSessions st' (Target s_pending) = Some ''id1'')"
proof -
  have i: "userSessions init_state ''bob'' = None" by (simp add: init_state_def)
  have st: "userSessions st_stale ''bob'' = Some ''id9''" "sessions st_stale ''id9'' = None"
    by (simp_all add: st_stale_def)
  have pa: "userSessions st_pending ''alice'' = Some ''id1''"
    and pb: "userSessions st_pending ''bob'' = Some ''id1''"
    and ps: "sessions st_pending ''id1'' = Some s_pending"
    by (simp_all add: st_pending_maps)
  have sp: "Target s_pending \<noteq> ''alice''" "Target s_pending = ''bob''"
    "Status s_pending = ''pending''"
    by (simp_all add: s_pending_def)
  have ab: "userSessions st_active ''bob'' = Some ''id1''"
    and as: "sessions st_active ''id1'' = Some (s_pending\<lparr>Status := ''active''\<rparr>)"
    by (simp_all add: st_active_maps)
  have sa: "Target (s_pending\<lparr>Status := ''active''\<rparr>) = ''bob''"
    "Status (s_pending\<lparr>Status := ''active''\<rparr>) \<noteq> ''pending''"
    by (simp_all add: s_pending_def)
  have 1: "handleAcceptSession init_state ''bob'' = (init_state, Inl NoSession, [])"
    by (rule accept_spec [THEN conjunct1, rule_format]) (rule i)
  have 2: "handleAcceptSession st_stale ''bob'' = (st_stale, Inl SessionNotFound, [])"
    by (rule accept_spec [THEN conjunct2, THEN conjunct1, rule_format, of _ _ "''id9''"])
      (simp add: st)
  have 3: "handleAcceptSession st_pending ''alice'' = (st_pending, Inl Forbidden, [])"
    by (rule accept_spec [THEN conjunct2, THEN conjunct2, THEN conjunct1, rule_format,
          of _ _ "''id1''" s_pending])
      (simp add: pa ps sp)
  have 4: "handleAcceptSession st_active ''bob'' = (st_active, Inl InvalidState, [])"
    by (rule accept_spec [THEN conjunct2, THEN conjunct2, THEN conjunct2, THEN conjunct1,
          rule_format, of _ _ "''id1''" "s_pending\<lparr>Status := ''active''\<rparr>"])
      (simp add: ab as sa)
  have "\<exists>st' out.
         handleAcceptSession st_pending ''bob'' = (st', Inr (s_pending\<lparr>Status := ''active''\<rparr>), out)
         \<and> sessions st' = (sessions st_pending)(''id1'' \<mapsto> s_pending\<lparr>Status := ''active''\<rparr>)
         \<and> userSessions st' = userSessions st_pending
         \<and> wsConnections st' = wsConnections st_pending
         \<and> handleGetSession st' ''bob'' = Inr (s_pending\<lparr>Status := ''active''\<rparr>)
         \<and> (reachable st_pending \<longrightarrow>
               userSessions st' (Caller s_pending) = Some ''id1''
               \<and> userSessions st' (Target s_pending) = Some ''id1'')"
    by (rule accept_spec [THEN conjunct2, THEN conjunct2, THEN conjunct2, THEN conjunct2,
          rule_format, of _ _ "''id1''" s_pending])
      (simp add: pb ps sp)
  then have 5: "\<exists>st' out.
         handleAcceptSession st_pending ''bob'' = (st', Inr (s_pending\<lparr>Status := ''active''\<rparr>), out)
         \<and> sessions st' = (sessions st_pending)(''id1'' \<mapsto> s_pending\<lparr>Status := ''active''\<rparr>)
         \<and> userSessions st' = userSessions st_pending
         \<and> wsConnections st' = wsConnections st_pending
         \<and> handleGetSession st' ''bob'' = Inr (s_pending\<lparr>Status := ''active''\<rparr>)
         \<and> userSessions st' (Caller s_pending) = Some ''id1''
         \<and> userSessions st' (Target s_pending) = Some ''id1''"
    using reachable_st_pending by blast
  show ?thesis
    using i 1 st 2 pa ps sp(1) 3 ab as sa 4 pb sp(2,3) reachable_st_pending 5
    by (intro conjI)
qed

text \<open>
  C5. Decline by an actor fails with NoSession when the actor has no index entry, with
  SessionNotFound when the indexed id is not in the store, and with Forbidden when the
  actor is not the target; failures return the state unchanged. The status is never
  tested: for the target it succeeds whatever the status (active included), returns
  the session with status declined, removes the session from the store and both parties
  from the index, and notifies the caller's connection if there is one.
\<close>

theorem decline_spec:
  "(userSessions st u = None \<longrightarrow> handleDeclineSession st u = (st, Inl NoSession, []))
   \<and> (\<forall>sid. userSessions st u = Some sid \<and> sessions st sid = None \<longrightarrow>
         handleDeclineSession st u = (st, Inl SessionNotFound, []))
   \<and> (\<forall>sid s. userSessions st u = Some sid \<and> sessions st sid = Some s \<and> Target s \<noteq> u \<longrightarrow>
         handleDeclineSession st u = (st, Inl Forbidden, []))
   \<and> (\<forall>sid s. userSessions st u = Some sid \<and> sessions st sid = Some s \<and> Target s = u \<longrightarrow>
         handleDeclineSession st u =
           (st\<lparr>userSessions := (userSessions st)(Target s := None, Caller s := None),
               sessions := (sessions st)(sid := None)\<rparr>,
            Inr (s\<lparr>Status := ''declined''\<rparr>),
            notify st (Caller s) (s\<lparr>Status := ''declined''\<rparr>))
         \<and> handleGetSession (fst (handleDeclineSession st u)) (Target s) = Inl NoSession
         \<and> handleGetSession (fst (handleDeclineSession st u)) (Caller s) = Inl NoSession)"
proof (intro conjI allI impI; (elim conjE)?)
  fix sid s
  assume u: "userSessions st u = Some sid" and s: "sessions st sid = Some s"
    and t: "Target s = u"
  note e = decline_effect[OF u s t[symmetric]]
  show "handleDeclineSession st u =
           (st\<lparr>userSessions := (userSessions st)(Target s := None, Caller s := None),
               sessions := (sessions st)(sid := None)\<rparr>,
            Inr (s\<lparr>Status := ''declined''\<rparr>),
            notify st (Caller s) (s\<lparr>Status := ''declined''\<rparr>))"
    by (rule e)
  show "handleGetSession (fst (handleDeclineSession st u)) (Target s) = Inl NoSession"
    by (simp add: e handleGetSession_def)
  show "handleGetSession (fst (handleDeclineSession st u)) (Caller s) = Inl NoSession"
    by (simp add: e handleGetSession_def)
qed (simp_all add: handleDeclineSession_def)

theorem decline_spec_witness:
  "userSessions init_state ''bob'' = None
   \<and> handleDeclineSession init_state ''bob'' = (init_state, Inl NoSession, [])
   \<and> userSessions st_stale ''bob'' = Some ''id9'' \<and> sessions st_stale ''id9'' = None
   \<and> handleDeclineSession st_stale ''bob'' = (st_stale, Inl SessionNotFound, [])
   \<and> userSessions st_pending ''alice'' = Some ''id1''
   \<and> sessions st_pending ''id1'' = Some s_pending \<and> Target s_pending \<noteq> ''alice''
   \<and> handleDeclineSession st_pending ''alice'' = (st_pending, Inl Forbidden, [])
   \<and> userSessions st_active ''bob'' = Some ''id1''
   \<and> sessions st_active ''id1'' = Some (s_pending\<lparr>Status := ''active''\<rparr>)
   \<and> Target (s_pending\<lparr>Status := ''active''\<rparr>) = ''bob''
   \<and> Status (s_pending\<lparr>Status := ''active''\<rparr>) = ''active''
   \<and> handleDeclineSession st_active ''bob'' =
        (st_active\<lparr>userSessions := (userSessions st_active)(''bob'' := None, ''alice'' := None),
                   sessions := (sessions st_active)(''id1'' := None)\<rparr>,
         Inr (s_pending\<lparr>Status := ''declined''\<rparr>),
         [(1, \<lparr>Event = ''session_updated'', Data = s_pending\<lparr>Status := ''declined''\<rparr>\<rparr>)])
   \<and> handleGetSession (fst (handleDeclineSession st_active ''bob'')) ''bob'' = Inl NoSession
   \<and> handleGetSession (fst (handleDeclineSession st_active ''bob'')) ''alice'' = Inl NoSession"
proof -
  have i: "userSessions init_state ''bob'' = None" by (simp add: init_state_def)
  have st: "userSessions st_stale ''bob'' = Some ''id9''" "sessions st_stale ''id9'' = None"
    by (simp_all add: st_stale_def)
  have pa: "userSessions st_pending ''alice'' = Some ''id1''"
    and ps: "sessions st_pending ''id1'' = Some s_pending"
    by (simp_all add: st_pending_maps)
  have sp: "Target s_pending \<noteq> ''alice''" by (simp add: s_pending_def)
  have ab: "userSessions st_active ''bob'' = Some ''id1''"
    and as: "sessions st_active ''id1'' = Some (s_pending\<lparr>Status := ''active''\<rparr>)"
    by (simp_all add: st_active_maps)
  have sa: "Target (s_pending\<lparr>Status := ''active''\<rparr>) = ''bob''"
    "Status (s_pending\<lparr>Status := ''active''\<rparr>) = ''active''"
    by (simp_all add: s_pending_def)
  have sc: "Caller (s_pending\<lparr>Status := ''active''\<rparr>) = ''alice''"
    "s_pending\<lparr>Status := ''active'', Status := ''declined''\<rparr> = s_pending\<lparr>Status := ''declined''\<rparr>"
    "notify st_active ''alice'' (s_pending\<lparr>Status := ''declined''\<rparr>)
       = [(1, \<lparr>Event = ''session_updated'', Data = s_pending\<lparr>Status := ''declined''\<rparr>\<rparr>)]"
    by (simp_all add: s_pending_def notify_def st_active_maps)
  have 1: "handleDeclineSession init_state ''bob'' = (init_state, Inl NoSession, [])"
    by (rule decline_spec [THEN conjunct1, rule_format]) (rule i)
  have 2: "handleDeclineSession st_stale ''bob'' = (st_stale, Inl SessionNotFound, [])"
    by (rule decline_spec [THEN conjunct2, THEN conjunct1, rule_format, of _ _ "''id9''"])
      (simp add: st)
  have 3: "handleDeclineSession st_pending ''alice'' = (st_pending, Inl Forbidden, [])"
    by (rule decline_spec [THEN conjunct2, THEN conjunct2, THEN conjunct1, rule_format,
          of _ _ "''id1''" s_pending])
      (simp add: pa ps sp)
  have "userSessions st_active ''bob'' = Some ''id1''
        \<and> sessions st_active ''id1'' = Some (s_pending\<lparr>Status := ''active''\<rparr>)
        \<and> Target (s_pending\<lparr>Status := ''active''\<rparr>) = ''bob''"
    using ab as sa(1) by (intro conjI)
  note 4 = decline_spec [THEN conjunct2, THEN conjunct2, THEN conjunct2, rule_format,
          of _ _ "''id1''" "s_pending\<lparr>Status := ''active''\<rparr>", OF this,
          unfolded sa sc]
  show ?thesis
    using i 1 st 2 pa ps sp 3 ab as sa 4 [THEN conjunct1] 4 [THEN conjunct2, THEN conjunct1]
      4 [THEN conjunct2, THEN conjunct2]
    by (intro conjI)
qed

section \<open>Cancelling\<close>

text \<open>
  C4. Cancel has no Forbidden test. In a reachable state, for every stored session
  that has the actor as caller or as target, whatever its status, Cancel by the actor
  succeeds: it returns the session with status cancelled, sends the notification to the
  connection of the other party (the target when the actor is the caller, the caller
  otherwise), removes the session from the store and both parties from the index, and
  a following Get by either party fails with NoSession. An actor without an index
  entry gets NoSession and the state is unchanged.
\<close>

theorem cancel_spec:
  "(reachable st \<longrightarrow>
      (\<forall>sid s. sessions st sid = Some s \<and> (Caller s = u \<or> Target s = u) \<longrightarrow>
         handleCancelSession st u =
           (st\<lparr>userSessions := (userSessions st)(Caller s := None, Target s := None),
               sessions := (sessions st)(sid := None)\<rparr>,
            Inr (s\<lparr>Status := ''cancelled''\<rparr>),
            notify st (if u = Caller s then Target s else Caller s)
              (s\<lparr>Status := ''cancelled''\<rparr>))
         \<and> handleGetSession (fst (handleCancelSession st u)) (Caller s) = Inl NoSession
         \<and> handleGetSession (fst (handleCancelSession st u)) (Target s) = Inl NoSession))
   \<and> (userSessions st u = None \<longrightarrow> handleCancelSession st u = (st, Inl NoSession, []))"
proof (intro conjI allI impI; (elim conjE)?)
  fix sid s
  assume r: "reachable st" and s: "sessions st sid = Some s"
    and p: "Caller s = u \<or> Target s = u"
  have inv: "invariant st" using r by (rule reachable_invariant)
  have u: "userSessions st u = Some sid"
    using inv_indexed[OF inv s] p by blast
  note e = cancel_effect[OF inv u s]
  show "handleCancelSession st u =
           (st\<lparr>userSessions := (userSessions st)(Caller s := None, Target s := None),
               sessions := (sessions st)(sid := None)\<rparr>,
            Inr (s\<lparr>Status := ''cancelled''\<rparr>),
            notify st (if u = Caller s then Target s else Caller s)
              (s\<lparr>Status := ''cancelled''\<rparr>))"
    by (rule e)
  show "handleGetSession (fst (handleCancelSession st u)) (Caller s) = Inl NoSession"
    by (simp add: e handleGetSession_def)
  show "handleGetSession (fst (handleCancelSession st u)) (Target s) = Inl NoSession"
    by (simp add: e handleGetSession_def)
qed (simp add: handleCancelSession_def)

theorem cancel_spec_witness:
  "reachable st_pending \<and> sessions st_pending ''id1'' = Some s_pending
   \<and> Caller s_pending = ''alice'' \<and> Status s_pending = ''pending''
   \<and> handleCancelSession st_pending ''alice'' =
        (st_pending\<lparr>userSessions := (userSessions st_pending)(''alice'' := None, ''bob'' := None),
                    sessions := (sessions st_pending)(''id1'' := None)\<rparr>,
         Inr (s_pending\<lparr>Status := ''cancelled''\<rparr>),
         [(2, \<lparr>Event = ''session_updated'', Data = s_pending\<lparr>Status := ''cancelled''\<rparr>\<rparr>)])
   \<and> handleGetSession (fst (handleCancelSession st_pending ''alice'')) ''alice'' = Inl NoSession
   \<and> handleGetSession (fst (handleCancelSession st_pending ''alice'')) ''bob'' = Inl NoSession
   \<and> reachable st_active
   \<and> sessions st_active ''id1'' = Some (s_pending\<lparr>Status := ''active''\<rparr>)
   \<and> Target (s_pending\<lparr>Status := ''active''\<rparr>) = ''bob''
   \<and> Status (s_pending\<lparr>Status := ''active''\<rparr>) = ''active''
   \<and> handleCancelSession st_active ''bob'' =
        (st_active\<lparr>userSessions := (userSessions st_active)(''alice'' := None, ''bob'' := None),
                   sessions := (sessions st_active)(''id1'' := None)\<rparr>,
         Inr (s_pending\<lparr>Status := ''cancelled''\<rparr>),
         [(1, \<lparr>Event = ''session_updated'', Data = s_pending\<lparr>Status := ''cancelled''\<rparr>\<rparr>)])
   \<and> handleGetSession (fst (handleCancelSession st_active ''bob'')) ''alice'' = Inl NoSession
   \<and> handleGetSession (fst (handleCancelSession st_active ''bob'')) ''bob'' = Inl NoSession
   \<and> userSessions init_state ''alice'' = None
   \<and> handleCancelSession init_state ''alice'' = (init_state, Inl NoSession, [])"
proof -
  have ps: "sessions st_pending ''id1'' = Some s_pending"
    and as: "sessions st_active ''id1'' = Some (s_pending\<lparr>Status := ''active''\<rparr>)"
    by (simp_all add: st_pending_maps st_active_maps)
  have sp: "Caller s_pending = ''alice''" "Status s_pending = ''pending''"
    and sa: "Target (s_pending\<lparr>Status := ''active''\<rparr>) = ''bob''"
      "Status (s_pending\<lparr>Status := ''active''\<rparr>) = ''active''"
    by (simp_all add: s_pending_def)
  have ev: "Target s_pending = ''bob''" "Caller (s_pending\<lparr>Status := ''active''\<rparr>) = ''alice''"
    "s_pending\<lparr>Status := ''active'', Status := ''cancelled''\<rparr>
       = s_pending\<lparr>Status := ''cancelled''\<rparr>"
    "notify st_pending ''bob'' (s_pending\<lparr>Status := ''cancelled''\<rparr>)
       = [(2, \<lparr>Event = ''session_updated'', Data = s_pending\<lparr>Status := ''cancelled''\<rparr>\<rparr>)]"
    "notify st_active ''alice'' (s_pending\<lparr>Status := ''cancelled''\<rparr>)
       = [(1, \<lparr>Event = ''session_updated'', Data = s_pending\<lparr>Status := ''cancelled''\<rparr>\<rparr>)]"
    by (simp_all add: s_pending_def notify_def st_pending_maps st_active_maps)
  have i: "userSessions init_state ''alice'' = None" by (simp add: init_state_def)
  have "sessions st_pending ''id1'' = Some s_pending
        \<and> (Caller s_pending = ''alice'' \<or> Target s_pending = ''alice'')"
    using ps sp(1) by simp
  note r1 = cancel_spec [THEN conjunct1, rule_format, OF reachable_st_pending this]
  have "sessions st_active ''id1'' = Some (s_pending\<lparr>Status := ''active''\<rparr>)
        \<and> (Caller (s_pending\<lparr>Status := ''active''\<rparr>) = ''bob''
           \<or> Target (s_pending\<lparr>Status := ''active''\<rparr>) = ''bob'')"
    using as sa(1) by simp
  note r2 = cancel_spec [THEN conjunct1, rule_format, OF reachable_st_active this]
  have 3: "handleCancelSession init_state ''alice'' = (init_state, Inl NoSession, [])"
    by (rule cancel_spec [THEN conjunct2, rule_format]) (rule i)
  have 1: "handleCancelSession st_pending ''alice'' =
        (st_pending\<lparr>userSessions := (userSessions st_pending)(''alice'' := None, ''bob'' := None),
                    sessions := (sessions st_pending)(''id1'' := None)\<rparr>,
         Inr (s_pending\<lparr>Status := ''cancelled''\<rparr>),
         [(2, \<lparr>Event = ''session_updated'', Data = s_pending\<lparr>Status := ''cancelled''\<rparr>\<rparr>)])"
    using r1 [THEN conjunct1] by (simp add: sp ev)
  have g1a: "handleGetSession (fst (handleCancelSession st_pending ''alice'')) ''alice'' = Inl NoSession"
    using r1 [THEN conjunct2, THEN conjunct1] by (simp add: sp ev)
  have g1b: "handleGetSession (fst (handleCancelSession st_pending ''alice'')) ''bob'' = Inl NoSession"
    using r1 [THEN conjunct2, THEN conjunct2] by (simp add: sp ev)
  have 2: "handleCancelSession st_active ''bob'' =
        (st_active\<lparr>userSessions := (userSessions st_active)(''alice'' := None, ''bob'' := None),
                   sessions := (sessions st_active)(''id1'' := None)\<rparr>,
         Inr (s_pending\<lparr>Status := ''cancelled''\<rparr>),
         [(1, \<lparr>Event = ''session_updated'', Data = s_pending\<lparr>Status := ''cancelled''\<rparr>\<rparr>)])"
    using r2 [THEN conjunct1] by (simp add: sa ev)
  have g2a: "handleGetSession (fst (handleCancelSession st_active ''bob'')) ''alice'' = Inl NoSession"
    using r2 [THEN conjunct2, THEN conjunct1] by (simp add: sa ev)
  have g2b: "handleGetSession (fst (handleCancelSession st_active ''bob'')) ''bob'' = Inl NoSession"
    using r2 [THEN conjunct2, THEN conjunct2] by (simp add: sa ev)
  show ?thesis
    using reachable_st_pending ps sp 1 g1a g1b reachable_st_active as sa 2 g2a g2b i 3
    by (intro conjI)
qed

section \<open>Relaying signals\<close>












section \<open>A WebSocket going away\<close>

text \<open>
  C7. The cleanup after the receive loop always removes the actor's entry from the
  registry of connections (and no other entry). When the actor is indexed to a stored
  session (in a reachable state), it also removes the session from the store and both
  parties from the index, sends the session with status disconnected to the connection
  of the other party, and a following Get by either party fails with NoSession. When
  the actor has no index entry, or the entry is stale, store and index are unchanged and
  nothing is sent. The cleanup hands no result to any caller: it yields the new state
  and the sends only.
\<close>

theorem disconnect_spec:
  "wsConnections (fst (ws_disconnect st u)) = (wsConnections st)(u := None)
   \<and> (reachable st \<longrightarrow>
        (\<forall>sid s. userSessions st u = Some sid \<and> sessions st sid = Some s \<longrightarrow>
           ws_disconnect st u =
             (st\<lparr>wsConnections := (wsConnections st)(u := None),
                 userSessions := (userSessions st)(Caller s := None, Target s := None),
                 sessions := (sessions st)(sid := None)\<rparr>,
              notify st (if u = Caller s then Target s else Caller s)
                (s\<lparr>Status := ''disconnected''\<rparr>))
           \<and> handleGetSession (fst (ws_disconnect st u)) (Caller s) = Inl NoSession
           \<and> handleGetSession (fst (ws_disconnect st u)) (Target s) = Inl NoSession))
   \<and> (userSessions st u = None \<or> (\<exists>sid. userSessions st u = Some sid \<and> sessions st sid = None)
        \<longrightarrow> ws_disconnect st u = (st\<lparr>wsConnections := (wsConnections st)(u := None)\<rparr>, []))"
proof (intro conjI allI impI; (elim conjE)?)
  show "wsConnections (fst (ws_disconnect st u)) = (wsConnections st)(u := None)"
    by (simp add: ws_disconnect_def Let_def split: option.splits)
next
  fix sid s
  assume r: "reachable st" and u: "userSessions st u = Some sid"
    and s: "sessions st sid = Some s"
  have inv: "invariant st" using r by (rule reachable_invariant)
  have n: "notify (st\<lparr>wsConnections := (wsConnections st)(u := None)\<rparr>)
             (if u = Caller s then Target s else Caller s) (s\<lparr>Status := ''disconnected''\<rparr>)
           = notify st (if u = Caller s then Target s else Caller s)
               (s\<lparr>Status := ''disconnected''\<rparr>)"
    by (rule party_cases[OF inv u s]) (simp_all add: notify_def)
  note e = disconnect_effect[OF inv u s, unfolded n]
  show "ws_disconnect st u =
             (st\<lparr>wsConnections := (wsConnections st)(u := None),
                 userSessions := (userSessions st)(Caller s := None, Target s := None),
                 sessions := (sessions st)(sid := None)\<rparr>,
              notify st (if u = Caller s then Target s else Caller s)
                (s\<lparr>Status := ''disconnected''\<rparr>))"
    by (rule e)
  show "handleGetSession (fst (ws_disconnect st u)) (Caller s) = Inl NoSession"
    by (simp add: e handleGetSession_def)
  show "handleGetSession (fst (ws_disconnect st u)) (Target s) = Inl NoSession"
    by (simp add: e handleGetSession_def)
next
  assume "userSessions st u = None \<or> (\<exists>sid. userSessions st u = Some sid \<and> sessions st sid = None)"
  then show "ws_disconnect st u = (st\<lparr>wsConnections := (wsConnections st)(u := None)\<rparr>, [])"
    by (elim disjE exE conjE) (simp_all add: ws_disconnect_def Let_def)
qed

theorem disconnect_spec_witness:
  "reachable st_active \<and> userSessions st_active ''alice'' = Some ''id1''
   \<and> sessions st_active ''id1'' = Some (s_pending\<lparr>Status := ''active''\<rparr>)
   \<and> ws_disconnect st_active ''alice'' =
        (st_active\<lparr>wsConnections := (wsConnections st_active)(''alice'' := None),
                   userSessions := (userSessions st_active)(''alice'' := None, ''bob'' := None),
                   sessions := (sessions st_active)(''id1'' := None)\<rparr>,
         [(2, \<lparr>Event = ''session_updated'', Data = s_pending\<lparr>Status := ''disconnected''\<rparr>\<rparr>)])
   \<and> handleGetSession (fst (ws_disconnect st_active ''alice'')) ''alice'' = Inl NoSession
   \<and> handleGetSession (fst (ws_disconnect st_active ''alice'')) ''bob'' = Inl NoSession
   \<and> wsConnections (fst (ws_disconnect st_active ''alice'')) ''alice'' = None
   \<and> userSessions init_state ''alice'' = None
   \<and> ws_disconnect init_state ''alice'' =
        (init_state\<lparr>wsConnections := (wsConnections init_state)(''alice'' := None)\<rparr>, [])
   \<and> userSessions st_stale ''bob'' = Some ''id9'' \<and> sessions st_stale ''id9'' = None
   \<and> ws_disconnect st_stale ''bob'' =
        (st_stale\<lparr>wsConnections := (wsConnections st_stale)(''bob'' := None)\<rparr>, [])"
proof -
  have i: "userSessions init_state ''alice'' = None" by (simp add: init_state_def)
  have st: "userSessions st_stale ''bob'' = Some ''id9''" "sessions st_stale ''id9'' = None"
    by (simp_all add: st_stale_def)
  have aa: "userSessions st_active ''alice'' = Some ''id1''"
    and as: "sessions st_active ''id1'' = Some (s_pending\<lparr>Status := ''active''\<rparr>)"
    by (simp_all add: st_active_maps)
  have ev: "Caller (s_pending\<lparr>Status := ''active''\<rparr>) = ''alice''"
    "Target (s_pending\<lparr>Status := ''active''\<rparr>) = ''bob''"
    "s_pending\<lparr>Status := ''active'', Status := ''disconnected''\<rparr>
       = s_pending\<lparr>Status := ''disconnected''\<rparr>"
    "notify st_active ''bob'' (s_pending\<lparr>Status := ''disconnected''\<rparr>)
       = [(2, \<lparr>Event = ''session_updated'', Data = s_pending\<lparr>Status := ''disconnected''\<rparr>\<rparr>)]"
    by (simp_all add: s_pending_def notify_def st_active_maps)
  have "userSessions st_active ''alice'' = Some ''id1''
        \<and> sessions st_active ''id1'' = Some (s_pending\<lparr>Status := ''active''\<rparr>)"
    using aa as by simp
  note r1 = disconnect_spec [THEN conjunct2, THEN conjunct1, rule_format,
      OF reachable_st_active this]
  have 1: "ws_disconnect st_active ''alice'' =
        (st_active\<lparr>wsConnections := (wsConnections st_active)(''alice'' := None),
                   userSessions := (userSessions st_active)(''alice'' := None, ''bob'' := None),
                   sessions := (sessions st_active)(''id1'' := None)\<rparr>,
         [(2, \<lparr>Event = ''session_updated'', Data = s_pending\<lparr>Status := ''disconnected''\<rparr>\<rparr>)])"
    using r1 [THEN conjunct1] by (simp add: ev)
  have g1: "handleGetSession (fst (ws_disconnect st_active ''alice'')) ''alice'' = Inl NoSession"
    using r1 [THEN conjunct2, THEN conjunct1] by (simp add: ev)
  have g2: "handleGetSession (fst (ws_disconnect st_active ''alice'')) ''bob'' = Inl NoSession"
    using r1 [THEN conjunct2, THEN conjunct2] by (simp add: ev)
  have w: "wsConnections (fst (ws_disconnect st_active ''alice'')) ''alice'' = None"
    using disconnect_spec [of st_active "''alice''", THEN conjunct1] by simp
  have 2: "ws_disconnect init_state ''alice'' =
        (init_state\<lparr>wsConnections := (wsConnections init_state)(''alice'' := None)\<rparr>, [])"
    by (rule disconnect_spec [THEN conjunct2, THEN conjunct2, rule_format]) (simp add: i)
  have 3: "ws_disconnect st_stale ''bob'' =
        (st_stale\<lparr>wsConnections := (wsConnections st_stale)(''bob'' := None)\<rparr>, [])"
    by (rule disconnect_spec [THEN conjunct2, THEN conjunct2, rule_format]) (simp add: st)
  show ?thesis
    using reachable_st_active aa as 1 g1 g2 w i 2 st 3
    by (intro conjI)
qed

section \<open>The status codes of the failures\<close>

text \<open>
  C9 (as the code has it). A failure is answered with these statuses: AlreadyInSession,
  SelfTarget and InvalidState with 400 (bad request), TargetBusy with 409 (conflict),
  Forbidden with 403, NoSession and SessionNotFound with 404.
\<close>

theorem error_status_mapping:
  "response_status (Inl AlreadyInSession) = 400
   \<and> response_status (Inl TargetBusy) = 409
   \<and> response_status (Inl SelfTarget) = 400
   \<and> response_status (Inl InvalidState) = 400
   \<and> response_status (Inl Forbidden) = 403
   \<and> response_status (Inl NoSession) = 404
   \<and> response_status (Inl SessionNotFound) = 404"
  by simp

text \<open>
  The claim as the specification words it has AlreadyInSession answered with 409
  (conflict). Alice, already in a session, creates another one: the answer is 400.
\<close>

theorem already_in_session_not_conflict:
  "fst (snd (handleCreateSession st_pending ''alice''
        \<lparr>TargetUsername = ''carol'', ReqType = ''video''\<rparr> ''id2'' 8)) = Inl AlreadyInSession
   \<and> response_status (fst (snd (handleCreateSession st_pending ''alice''
        \<lparr>TargetUsername = ''carol'', ReqType = ''video''\<rparr> ''id2'' 8))) = 400
   \<and> response_status (fst (snd (handleCreateSession st_pending ''alice''
        \<lparr>TargetUsername = ''carol'', ReqType = ''video''\<rparr> ''id2'' 8))) \<noteq> 409"
  by (simp add: handleCreateSession_def st_pending_maps)

end
